theory Spec2Isabelle
  imports Main
begin

section \<open>Tokens, descriptors and the system-call trace\<close>

text \<open>
  The shell of \<^verbatim>\<open>shell2.c\<close> is embedded as functions from what the operating system
  answers to what the process does. A \<^verbatim>\<open>char*\<close> array terminated by \<^verbatim>\<open>NULL\<close> is a list of
  tokens, the terminator being the end of the list; storing \<^verbatim>\<open>NULL\<close> at index \<open>i\<close> is
  \<open>take i\<close>. The arrays of the source hold \<^verbatim>\<open>MAX_ARGUMENTS\<close> entries; the entry point
  (\<open>main_iteration\<close> below) marks a line with too many tokens as undefined behaviour, and
  below that bound no array of the pipeline code is indexed out of range.

  A descriptor is named by the place the source keeps it in:
  \<open>PipeFd j ReadEnd\<close> is \<^verbatim>\<open>pipe_file_descriptors[j][0]\<close>, \<open>PipeFd j WriteEnd\<close> is
  \<^verbatim>\<open>pipe_file_descriptors[j][1]\<close>, and \<open>FileFd f\<close> is the descriptor \<^verbatim>\<open>open\<close> returned for
  file \<open>f\<close> (\<^verbatim>\<open>output_fd\<close> or \<^verbatim>\<open>input_fd\<close>). The kernel hands out numbers that are pairwise
  distinct and, the standard streams being open, different from 0 and 1.
\<close>

type_synonym token = string

datatype pipe_end = ReadEnd | WriteEnd

datatype fd = STDIN_FILENO | STDOUT_FILENO | PipeFd nat pipe_end | FileFd string

datatype open_flag = O_RDONLY | O_WRONLY | O_CREAT | O_TRUNC | O_APPEND

datatype arg = I int | S string

text \<open>
  Every call with an effect outside the process is an event of the trace, with the
  answer of the operating system where the source looks at it. \<open>Printf fmt args\<close> and
  \<open>Fprintf_stderr fmt args\<close> keep the format string and its arguments as the source
  passes them.
\<close>

datatype event =
    Printf string "arg list"
  | Fprintf_stderr string "arg list"
  | Perror string
  | Open string "open_flag list" "nat option" bool
  | Dup2 fd fd bool
  | Close fd
  | Pipe nat bool
  | Fork int
  | Waitpid int
  | Kill int
  | Signal_SIGINT_DFL
  | Sleep nat
  | Execvp string "token list" bool
  | Chdir string bool
  | Exit nat

text \<open>
  How a C function ends: it returns to its caller, the process ends by \<^verbatim>\<open>exit\<close>, or
  \<^verbatim>\<open>execvp\<close> succeeded and the process image was replaced (the call never returns).
\<close>

datatype outcome = Returned | Exited nat | Replaced

datatype wait_status = WExited nat | WSignaled nat

datatype fgets_result = Line string | ReadError | EndOfFile

text \<open>
  The answers of the operating system, one field per call site. \<open>fork_res k\<close> is what
  \<^verbatim>\<open>fork\<close> returns for stage \<open>k\<close> of a pipeline: 0 in the child, the child's process id
  in the parent, a negative number on failure; one function therefore describes the
  orchestrating process and every stage child.
\<close>

record os =
  open_res :: "string \<Rightarrow> open_flag list \<Rightarrow> bool"
  dup2_res :: "fd \<Rightarrow> fd \<Rightarrow> bool"
  execvp_res :: "string \<Rightarrow> token list \<Rightarrow> bool"
  pipe_res :: "nat \<Rightarrow> bool"
  fork_res :: "nat \<Rightarrow> int"
  getcwd_prompt :: "string option"
  getcwd_pwd :: "string option"
  fgets_res :: fgets_result
  getenv :: "string \<Rightarrow> string option"
  environ :: "string list"
  chdir_res :: "string \<Rightarrow> bool"
  fork_child :: int
  fork_timeout :: int
  wait_res :: wait_status

definition MAX_ARGUMENTS :: nat where
  "MAX_ARGUMENTS = 128"

definition TIMEOUT_SECONDS :: nat where
  "TIMEOUT_SECONDS = 10"

definition SHELL_PROMPT :: string where
  "SHELL_PROMPT = ''> ''"

definition TOKEN_DELIMITERS :: string where
  "TOKEN_DELIMITERS = [CHR '' '', CHR 0x09, CHR 0x0D, CHR 0x0A]"

definition mode_0644 :: nat where
  "mode_0644 = 6 * 64 + 4 * 8 + 4"

section \<open>The Stage Launcher: \<^verbatim>\<open>execute_single_command\<close>\<close>

text \<open>
  The \<^verbatim>\<open>for\<close> loop over \<^verbatim>\<open>args[i]\<close>: at the first \<^verbatim>\<open>>\<close> or \<^verbatim>\<open><\<close> that has a token after
  it the file is opened, duplicated onto the standard stream and closed, the array is
  cut at \<open>i\<close> and the loop is left. The result is the trace and the argument vector
  that is left, or \<open>None\<close> when the process ended by \<^verbatim>\<open>exit(1)\<close>.
\<close>

function redirect_loop :: "os \<Rightarrow> token list \<Rightarrow> nat \<Rightarrow> event list \<times> token list option" where
  "redirect_loop os args i =
     (if i < length args then
        (if args ! i = ''>'' \<and> Suc i < length args then
           (let file = args ! Suc i; flags = [O_WRONLY, O_CREAT, O_TRUNC];
                output_fd = FileFd file
            in if \<not> open_res os file flags then
                 ([Open file flags (Some mode_0644) False, Perror ''open'', Exit 1], None)
               else if \<not> dup2_res os output_fd STDOUT_FILENO then
                 ([Open file flags (Some mode_0644) True, Dup2 output_fd STDOUT_FILENO False,
                   Perror ''dup2'', Close output_fd, Exit 1], None)
               else
                 ([Open file flags (Some mode_0644) True, Dup2 output_fd STDOUT_FILENO True,
                   Close output_fd], Some (take i args)))
         else if args ! i = ''<'' \<and> Suc i < length args then
           (let file = args ! Suc i; flags = [O_RDONLY]; input_fd = FileFd file
            in if \<not> open_res os file flags then
                 ([Open file flags None False, Perror ''open'', Exit 1], None)
               else if \<not> dup2_res os input_fd STDIN_FILENO then
                 ([Open file flags None True, Dup2 input_fd STDIN_FILENO False,
                   Perror ''dup2'', Close input_fd, Exit 1], None)
               else
                 ([Open file flags None True, Dup2 input_fd STDIN_FILENO True,
                   Close input_fd], Some (take i args)))
         else redirect_loop os args (Suc i))
      else ([], Some args))"
  by pat_completeness auto
termination
  by (relation "measure (\<lambda>(os, args, i). length args - i)") auto

declare redirect_loop.simps [simp del]

definition execute_single_command :: "os \<Rightarrow> token list \<Rightarrow> event list \<times> outcome" where
  "execute_single_command os args =
     (case redirect_loop os args 0 of
        (evs, None) \<Rightarrow> (evs, Exited 1)
      | (evs, Some args') \<Rightarrow>
          (case args' of
             [] \<Rightarrow> (evs, Returned)
           | prog # _ \<Rightarrow>
               if execvp_res os prog args' then (evs @ [Execvp prog args' True], Replaced)
               else (evs @ [Execvp prog args' False, Perror ''execvp'', Exit 1], Exited 1)))"

section \<open>The Pipeline Splitter and Orchestrator: \<^verbatim>\<open>execute_command_with_pipes_and_redirection\<close>\<close>

text \<open>
  The \<^verbatim>\<open>while\<close> loop that fills \<^verbatim>\<open>commands_by_pipe\<close>. The second argument holds the rows
  that are finished (\<^verbatim>\<open>pipe_command_count\<close> of them), the third the row being filled
  (\<^verbatim>\<open>command_token_count\<close> tokens). A \<^verbatim>\<open>|\<close> met while the row is empty ends the function
  (\<open>None\<close>); at the end of the input the row being filled is terminated as it is.
\<close>

fun split_loop :: "token list \<Rightarrow> token list list \<Rightarrow> token list \<Rightarrow> token list list option" where
  "split_loop [] commands_by_pipe cur = Some (commands_by_pipe @ [cur])"
| "split_loop (t # ts) commands_by_pipe cur =
     (if t = ''|'' then
        (if cur = [] then None else split_loop ts (commands_by_pipe @ [cur]) [])
      else split_loop ts commands_by_pipe (cur @ [t]))"

text \<open>The loop of \<^verbatim>\<open>pipe\<close> calls; the first failure reports and ends the function.\<close>

function create_pipes :: "os \<Rightarrow> nat \<Rightarrow> nat \<Rightarrow> event list \<times> bool" where
  "create_pipes os pipe_index num_pipes =
     (if pipe_index < num_pipes then
        (if pipe_res os pipe_index then
           (case create_pipes os (Suc pipe_index) num_pipes of
              (evs, ok) \<Rightarrow> (Pipe pipe_index True # evs, ok))
         else ([Pipe pipe_index False, Perror ''pipe''], False))
      else ([], True))"
  by pat_completeness auto
termination
  by (relation "measure (\<lambda>(os, pipe_index, num_pipes). num_pipes - pipe_index)") auto

declare create_pipes.simps [simp del]

definition close_both :: "nat \<Rightarrow> event list" where
  "close_both j = [Close (PipeFd j ReadEnd), Close (PipeFd j WriteEnd)]"

text \<open>
  What a stage child does between \<^verbatim>\<open>fork\<close> and the call of the Stage Launcher: the
  three branches on \<^verbatim>\<open>cmd_index\<close>, each a \<^verbatim>\<open>dup2\<close> (two for a middle stage, the second
  only when the first succeeded) and the \<^verbatim>\<open>close\<close> calls of its \<^verbatim>\<open>for\<close> loop over \<open>j\<close>.
  The flag says whether the child goes on to the launcher.
\<close>

definition wire_stage :: "os \<Rightarrow> nat \<Rightarrow> nat \<Rightarrow> event list \<times> bool" where
  "wire_stage os num_pipes cmd_index =
     (if cmd_index = 0 then
        (if \<not> dup2_res os (PipeFd 0 WriteEnd) STDOUT_FILENO then
           ([Dup2 (PipeFd 0 WriteEnd) STDOUT_FILENO False, Perror ''dup2'', Exit 1], False)
         else
           (Dup2 (PipeFd 0 WriteEnd) STDOUT_FILENO True # Close (PipeFd 0 ReadEnd) #
            concat (map close_both [1..<num_pipes]), True))
      else if cmd_index = num_pipes then
        (if \<not> dup2_res os (PipeFd (num_pipes - 1) ReadEnd) STDIN_FILENO then
           ([Dup2 (PipeFd (num_pipes - 1) ReadEnd) STDIN_FILENO False, Perror ''dup2'', Exit 1],
            False)
         else
           (Dup2 (PipeFd (num_pipes - 1) ReadEnd) STDIN_FILENO True #
            Close (PipeFd (num_pipes - 1) WriteEnd) #
            concat (map close_both [0..<num_pipes - 1]), True))
      else
        (if \<not> dup2_res os (PipeFd (cmd_index - 1) ReadEnd) STDIN_FILENO then
           ([Dup2 (PipeFd (cmd_index - 1) ReadEnd) STDIN_FILENO False, Perror ''dup2'', Exit 1],
            False)
         else if \<not> dup2_res os (PipeFd cmd_index WriteEnd) STDOUT_FILENO then
           ([Dup2 (PipeFd (cmd_index - 1) ReadEnd) STDIN_FILENO True,
             Dup2 (PipeFd cmd_index WriteEnd) STDOUT_FILENO False, Perror ''dup2'', Exit 1],
            False)
         else
           (Dup2 (PipeFd (cmd_index - 1) ReadEnd) STDIN_FILENO True #
            Dup2 (PipeFd cmd_index WriteEnd) STDOUT_FILENO True #
            concat (map (\<lambda>j. if j = cmd_index - 1 then [Close (PipeFd j WriteEnd)]
                             else if j = cmd_index then [Close (PipeFd j ReadEnd)]
                             else close_both j) [0..<num_pipes]), True)))"

text \<open>The child branch of the spawning loop; \<^verbatim>\<open>exit(1)\<close> follows a launcher that returns.\<close>

definition stage_child :: "os \<Rightarrow> token list list \<Rightarrow> nat \<Rightarrow> nat \<Rightarrow> event list \<times> outcome" where
  "stage_child os commands_by_pipe num_pipes cmd_index =
     (case wire_stage os num_pipes cmd_index of
        (evs, False) \<Rightarrow> (evs, Exited 1)
      | (evs, True) \<Rightarrow>
          (case execute_single_command os (commands_by_pipe ! cmd_index) of
             (evs', Returned) \<Rightarrow> (evs @ evs' @ [Exit 1], Exited 1)
           | (evs', r) \<Rightarrow> (evs @ evs', r)))"

text \<open>
  The end of the orchestrating process: close both ends of every pipe, then wait for
  every stage (\<^verbatim>\<open>process_ids[p]\<close> is what \<^verbatim>\<open>fork\<close> returned for stage \<open>p\<close>).
\<close>

definition close_and_wait :: "os \<Rightarrow> nat \<Rightarrow> event list" where
  "close_and_wait os num_pipes =
     concat (map close_both [0..<num_pipes]) @
     map (\<lambda>proc_index. Waitpid (fork_res os proc_index)) [0..<num_pipes + 1]"

function spawn_stages :: "os \<Rightarrow> token list list \<Rightarrow> nat \<Rightarrow> nat \<Rightarrow> event list \<times> outcome" where
  "spawn_stages os commands_by_pipe num_pipes cmd_index =
     (if cmd_index < num_pipes + 1 then
        (if fork_res os cmd_index = 0 then
           (case stage_child os commands_by_pipe num_pipes cmd_index of
              (evs, r) \<Rightarrow> (Fork 0 # evs, r))
         else if fork_res os cmd_index < 0 then
           ([Fork (fork_res os cmd_index), Perror ''fork''], Returned)
         else
           (case spawn_stages os commands_by_pipe num_pipes (Suc cmd_index) of
              (evs, r) \<Rightarrow> (Fork (fork_res os cmd_index) # evs, r)))
      else (close_and_wait os num_pipes, Returned))"
  by pat_completeness auto
termination
  by (relation "measure (\<lambda>(os, cmds, num_pipes, cmd_index). Suc num_pipes - cmd_index)") auto

declare spawn_stages.simps [simp del]

definition execute_command_with_pipes_and_redirection ::
  "os \<Rightarrow> token list \<Rightarrow> event list \<times> outcome" where
  "execute_command_with_pipes_and_redirection os command_arguments =
     (case split_loop command_arguments [] [] of
        None \<Rightarrow> ([Printf ''Invalid pipe command\<newline>'' []], Returned)
      | Some commands_by_pipe \<Rightarrow>
          (let num_pipes = length commands_by_pipe - 1 in
           if num_pipes = 0 then
             execute_single_command os (commands_by_pipe ! 0)
           else
             (case create_pipes os 0 num_pipes of
                (evs, False) \<Rightarrow> (evs, Returned)
              | (evs, True) \<Rightarrow>
                  (case spawn_stages os commands_by_pipe num_pipes 0 of
                     (evs', r) \<Rightarrow> (evs @ evs', r)))))"

text \<open>
  The descriptors a process holds after a trace, the standard streams apart: a
  successful \<^verbatim>\<open>pipe\<close> adds both ends of that pipe, a successful \<^verbatim>\<open>open\<close> adds the file's
  descriptor, \<^verbatim>\<open>close\<close> removes one. \<^verbatim>\<open>fork\<close> copies the table, so the trace of a child
  starts with the trace of its parent up to the \<^verbatim>\<open>fork\<close>.
\<close>

fun apply_event :: "event \<Rightarrow> fd set \<Rightarrow> fd set" where
  "apply_event (Pipe j True) fds = insert (PipeFd j ReadEnd) (insert (PipeFd j WriteEnd) fds)"
| "apply_event (Open f flags m True) fds = insert (FileFd f) fds"
| "apply_event (Close d) fds = fds - {d}"
| "apply_event _ fds = fds"

definition open_fds :: "event list \<Rightarrow> fd set" where
  "open_fds evs = fold apply_event evs {}"

fun is_pipe_created :: "event \<Rightarrow> bool" where
  "is_pipe_created (Pipe j ok) = ok"
| "is_pipe_created _ = False"

fun is_spawned :: "event \<Rightarrow> bool" where
  "is_spawned (Fork pid) = (0 < pid)"
| "is_spawned _ = False"

fun is_fork_or_pipe :: "event \<Rightarrow> bool" where
  "is_fork_or_pipe (Pipe j ok) = True"
| "is_fork_or_pipe (Fork pid) = True"
| "is_fork_or_pipe _ = False"

section \<open>The prompt loop and the Foreground Supervisor: \<^verbatim>\<open>main\<close>\<close>

text \<open>
  The tokens \<^verbatim>\<open>strtok\<close> returns for the delimiters \<^verbatim>\<open>" \t\r\n"\<close>: the maximal runs of other
  characters, in order (the second argument is the run being read).
\<close>

fun strtok_loop :: "string \<Rightarrow> string \<Rightarrow> string \<Rightarrow> token list" where
  "strtok_loop delims [] cur = (if cur = [] then [] else [cur])"
| "strtok_loop delims (c # cs) cur =
     (if c \<in> set delims then
        (if cur = [] then strtok_loop delims cs [] else cur # strtok_loop delims cs [])
      else strtok_loop delims cs (cur @ [c]))"

text \<open>
  \<^verbatim>\<open>process_token_quotes\<close>: a token that starts with a quote and ends with the same
  quote loses both. For a token that is one quote character alone the source stores
  \<^verbatim>\<open>'\0'\<close> at \<^verbatim>\<open>token[0]\<close> and at \<^verbatim>\<open>token[-1]\<close>; the token becomes empty, and the second
  store is outside the buffer when the token starts the line (\<open>writes_before_buffer\<close>).
\<close>

definition process_token_quotes :: "token \<Rightarrow> token" where
  "process_token_quotes token =
     (case token of
        [] \<Rightarrow> []
      | q # rest \<Rightarrow>
          if (q = CHR 0x22 \<or> q = CHR 0x27) \<and> last token = q then butlast rest else token)"

definition writes_before_buffer :: "string \<Rightarrow> bool" where
  "writes_before_buffer buf =
     (case buf of
        [] \<Rightarrow> False
      | q # rest \<Rightarrow>
          (q = CHR 0x22 \<or> q = CHR 0x27) \<and> (rest = [] \<or> hd rest \<in> set TOKEN_DELIMITERS))"

record shell_state =
  foreground_process_id :: int

text \<open>
  How one pass of the \<^verbatim>\<open>while (true)\<close> loop ends for the process that runs it: back at
  the top of the loop, ended by \<^verbatim>\<open>exit\<close>, replaced by \<^verbatim>\<open>execvp\<close>, or outside what C
  defines (a store past an array, \<^verbatim>\<open>strcmp\<close> on a null pointer).
\<close>

datatype step = Continue shell_state | Terminated nat | Image_replaced | Undefined

definition handle_interrupt_signal :: "shell_state \<Rightarrow> event list" where
  "handle_interrupt_signal st =
     (if foreground_process_id st \<noteq> - 1 then [Kill (foreground_process_id st)] else [])"

definition terminate_after_timeout :: "nat \<Rightarrow> int \<Rightarrow> event list" where
  "terminate_after_timeout seconds process_id =
     [Sleep seconds,
      Printf ''Foreground process timed out after %d seconds.\<newline>'' [I (int seconds)],
      Kill process_id]"

definition builtin_cd :: "os \<Rightarrow> token list \<Rightarrow> event list" where
  "builtin_cd os args =
     (case tl args of
        [] \<Rightarrow>
          (case getenv os ''HOME'' of
             Some home_directory \<Rightarrow>
               if chdir_res os home_directory then [Chdir home_directory True]
               else [Chdir home_directory False, Perror ''cd'']
           | None \<Rightarrow> [Fprintf_stderr ''cd: HOME not set\<newline>'' []])
      | d # _ \<Rightarrow> if chdir_res os d then [Chdir d True] else [Chdir d False, Perror ''cd''])"

definition builtin_pwd :: "os \<Rightarrow> event list" where
  "builtin_pwd os =
     (case getcwd_pwd os of
        None \<Rightarrow> [Perror ''pwd'']
      | Some working_directory_path \<Rightarrow> [Printf ''%s\<newline>'' [S working_directory_path]])"

definition builtin_echo :: "os \<Rightarrow> token list \<Rightarrow> event list" where
  "builtin_echo os args =
     map (\<lambda>a. case a of
                 [] \<Rightarrow> Printf ''%s '' [S a]
               | c # name \<Rightarrow>
                   if c = CHR ''$'' then
                     (case getenv os name of
                        Some env_value \<Rightarrow> Printf ''%s '' [S env_value]
                      | None \<Rightarrow> Printf '' '' [])
                   else Printf ''%s '' [S a]) (tl args)
     @ [Printf ''\<newline>'' []]"

definition builtin_env :: "os \<Rightarrow> token list \<Rightarrow> event list" where
  "builtin_env os args =
     (case tl args of
        v # _ \<Rightarrow>
          (case getenv os v of
             Some env_value \<Rightarrow> [Printf ''%s\<newline>'' [S env_value]]
           | None \<Rightarrow> [Printf ''\<newline>'' []])
      | [] \<Rightarrow> map (\<lambda>e. Printf ''%s\<newline>'' [S e]) (environ os))"

text \<open>
  \<^verbatim>\<open>setenv\<close>: the argument is cut at \<^verbatim>\<open>=\<close> by \<^verbatim>\<open>strtok\<close>. When it has two parts the loop
  of the source runs a second time and stores the next \<^verbatim>\<open>strtok\<close> result in
  \<^verbatim>\<open>env_var_parts[2]\<close>, one past the array of two: that case is \<open>None\<close> here.
\<close>

definition builtin_setenv :: "os \<Rightarrow> token list \<Rightarrow> event list option" where
  "builtin_setenv os args =
     (case tl args of
        [] \<Rightarrow> Some [Fprintf_stderr ''setenv: missing argument\<newline>'' []]
      | a # _ \<Rightarrow>
          (case strtok_loop ''='' a [] of
             [] \<Rightarrow> Some [Fprintf_stderr ''setenv: invalid format. Use NAME=VALUE\<newline>'' []]
           | [name] \<Rightarrow> Some [Fprintf_stderr ''setenv: invalid format. Use NAME=VALUE\<newline>'' []]
           | name # val # _ \<Rightarrow> None))"

text \<open>
  The branch for an external command, from the first \<^verbatim>\<open>fork\<close> on. \<open>fork_child\<close> and
  \<open>fork_timeout\<close> are what the two \<^verbatim>\<open>fork\<close> calls return in the process described: both
  positive in the shell itself, \<open>fork_child = 0\<close> in the foreground child,
  \<open>fork_timeout = 0\<close> in the watchdog.
\<close>

definition report_status :: "wait_status \<Rightarrow> event list" where
  "report_status exit_status =
     (case exit_status of
        WExited code \<Rightarrow>
          if code \<noteq> 0 then [Fprintf_stderr ''Process exited with status %d\<newline>'' [I (int code)]]
          else []
      | WSignaled sig \<Rightarrow> [])"

definition run_external :: "os \<Rightarrow> shell_state \<Rightarrow> token list \<Rightarrow> bool \<Rightarrow> event list \<times> step" where
  "run_external os st command_arguments is_background_process =
     (let child_pid = fork_child os in
      if child_pid < 0 then ([Fork child_pid, Perror ''fork''], Continue st)
      else if child_pid = 0 then
        (case execute_command_with_pipes_and_redirection os command_arguments of
           (evs, Returned) \<Rightarrow> (Fork 0 # Signal_SIGINT_DFL # evs @ [Exit 1], Terminated 1)
         | (evs, Exited c) \<Rightarrow> (Fork 0 # Signal_SIGINT_DFL # evs, Terminated c)
         | (evs, Replaced) \<Rightarrow> (Fork 0 # Signal_SIGINT_DFL # evs, Image_replaced))
      else if is_background_process then
        ([Fork child_pid, Printf ''[%d] Background process started\<newline>'' [I child_pid]],
         Continue (st\<lparr>foreground_process_id := - 1\<rparr>))
      else
        (let st' = st\<lparr>foreground_process_id := child_pid\<rparr>;
             timeout_process_id = fork_timeout os
         in if timeout_process_id < 0 then
              ([Fork child_pid, Fork timeout_process_id, Perror ''fork for timeout process''],
               Continue st')
            else if timeout_process_id = 0 then
              ([Fork child_pid, Fork 0, Signal_SIGINT_DFL] @
               terminate_after_timeout TIMEOUT_SECONDS child_pid @ [Exit 0], Terminated 0)
            else
              ([Fork child_pid, Fork timeout_process_id, Waitpid child_pid,
                Kill timeout_process_id, Waitpid timeout_process_id] @
               report_status (wait_res os), Continue st')))"

text \<open>
  The dispatch on \<^verbatim>\<open>command_arguments[0]\<close>, after a final \<^verbatim>\<open>&\<close> has been replaced by
  \<^verbatim>\<open>NULL\<close>. A line that is \<^verbatim>\<open>&\<close> alone leaves \<^verbatim>\<open>command_arguments[0]\<close> null, and the first
  \<^verbatim>\<open>strcmp\<close> reads through it.
\<close>

definition strip_background :: "token list \<Rightarrow> token list" where
  "strip_background tokens = (if last tokens = ''&'' then butlast tokens else tokens)"

definition dispatch :: "os \<Rightarrow> shell_state \<Rightarrow> token list \<Rightarrow> event list \<times> step" where
  "dispatch os st tokens =
     (let final_argument = last tokens;
          is_background_process = (final_argument = ''&'');
          command_arguments = strip_background tokens
      in if command_arguments = [] then ([], Undefined)
         else if hd command_arguments = ''cd'' then (builtin_cd os command_arguments, Continue st)
         else if hd command_arguments = ''pwd'' then (builtin_pwd os, Continue st)
         else if hd command_arguments = ''echo'' then
           (builtin_echo os command_arguments, Continue st)
         else if hd command_arguments = ''exit'' then ([Exit 0], Terminated 0)
         else if hd command_arguments = ''env'' then
           (builtin_env os command_arguments, Continue st)
         else if hd command_arguments = ''setenv'' then
           (case builtin_setenv os command_arguments of
              Some evs \<Rightarrow> (evs, Continue st)
            | None \<Rightarrow> ([], Undefined))
         else run_external os st command_arguments is_background_process)"

text \<open>
  One pass of the loop: the prompt, \<^verbatim>\<open>fgets\<close>, the trailing newline, the tokens, the
  dispatch. \<^verbatim>\<open>command_arguments\<close> holds \<^verbatim>\<open>MAX_ARGUMENTS\<close> pointers, the terminator
  included, so a line of \<^verbatim>\<open>MAX_ARGUMENTS\<close> tokens or more is stored past its end.
\<close>

definition strip_newline :: "string \<Rightarrow> string" where
  "strip_newline user_input_buffer =
     (if user_input_buffer \<noteq> [] \<and> last user_input_buffer = CHR 0x0A
      then butlast user_input_buffer else user_input_buffer)"

definition tokenize :: "string \<Rightarrow> token list" where
  "tokenize line = map process_token_quotes (strtok_loop TOKEN_DELIMITERS line [])"

definition main_iteration :: "os \<Rightarrow> shell_state \<Rightarrow> event list \<times> step" where
  "main_iteration os st =
     (case getcwd_prompt os of
        None \<Rightarrow> ([Perror ''getcwd'', Exit 1], Terminated 1)
      | Some working_directory_path \<Rightarrow>
          (let prompt = Printf ''%s %s'' [S working_directory_path, S SHELL_PROMPT] in
           case fgets_res os of
             ReadError \<Rightarrow>
               ([prompt, Fprintf_stderr ''Error reading input\<newline>'' [], Exit 1], Terminated 1)
           | EndOfFile \<Rightarrow> ([prompt, Printf ''exit\<newline>'' [], Exit 0], Terminated 0)
           | Line user_input_buffer \<Rightarrow>
               (let line = strip_newline user_input_buffer
                in if line = [] then ([prompt], Continue st)
                   else if writes_before_buffer line then ([prompt], Undefined)
                   else if MAX_ARGUMENTS \<le> length (tokenize line) then ([prompt], Undefined)
                   else if tokenize line = [] then ([prompt], Continue st)
                   else (case dispatch os st (tokenize line) of
                           (evs, r) \<Rightarrow> (prompt # evs, r)))))"

section \<open>Files under \<^verbatim>\<open>open\<close> and \<^verbatim>\<open>write\<close>\<close>

text \<open>
  What a trace of the launcher does to the files, after POSIX: a successful \<^verbatim>\<open>open\<close>
  creates a missing file empty and, with \<^verbatim>\<open>O_TRUNC\<close> on a file opened for writing, cuts
  an existing one to length 0; the new descriptor starts at offset 0. \<^verbatim>\<open>dup2\<close> onto
  standard output makes the opened file the destination of what the program prints.
  The program run by a successful \<^verbatim>\<open>execvp\<close> prints \<open>out\<close>: with \<^verbatim>\<open>O_APPEND\<close> it lands
  after the old content, otherwise it overwrites from offset 0 and leaves what lies
  beyond it.
\<close>

type_synonym files = "string \<Rightarrow> string option"

record io_state =
  files_of :: files
  opened :: "string \<Rightarrow> open_flag list option"
  stdout_file :: "(string \<times> open_flag list) option"

fun io_event :: "string \<Rightarrow> event \<Rightarrow> io_state \<Rightarrow> io_state" where
  "io_event out (Open f flags m True) s =
     s\<lparr>files_of :=
          (if files_of s f = None \<or> (O_TRUNC \<in> set flags \<and> O_WRONLY \<in> set flags)
           then (files_of s)(f \<mapsto> []) else files_of s),
        opened := (opened s)(f \<mapsto> flags)\<rparr>"
| "io_event out (Dup2 (FileFd f) STDOUT_FILENO True) s =
     (case opened s f of
        Some flags \<Rightarrow> s\<lparr>stdout_file := Some (f, flags)\<rparr>
      | None \<Rightarrow> s)"
| "io_event out (Execvp prog argv True) s =
     (case stdout_file s of
        None \<Rightarrow> s
      | Some (f, flags) \<Rightarrow>
          (case files_of s f of
             None \<Rightarrow> s
           | Some old \<Rightarrow>
               s\<lparr>files_of := (files_of s)(f \<mapsto>
                    (if O_APPEND \<in> set flags then old @ out
                     else out @ drop (length out) old))\<rparr>))"
| "io_event out _ s = s"

definition run_stage :: "os \<Rightarrow> token list \<Rightarrow> string \<Rightarrow> files \<Rightarrow> files" where
  "run_stage os args out fs =
     files_of (fold (io_event out) (fst (execute_single_command os args))
       \<lparr>files_of = fs, opened = \<lambda>f. None, stdout_file = None\<rparr>)"

section \<open>A sample run of the operating system\<close>

text \<open>Every call succeeds; the stages of a pipeline get the process ids 100, 101, ...\<close>

definition sample_os :: os where
  "sample_os =
     \<lparr>open_res = \<lambda>f flags. True, dup2_res = \<lambda>d d'. True, execvp_res = \<lambda>prog argv. True,
      pipe_res = \<lambda>k. True, fork_res = \<lambda>k. 100 + int k,
      getcwd_prompt = Some ''/home'', getcwd_pwd = Some ''/home'',
      fgets_res = Line ''ls\<newline>'', getenv = \<lambda>name. None, environ = [],
      chdir_res = \<lambda>d. True, fork_child = 4242, fork_timeout = 4243,
      wait_res = WExited 0\<rparr>"

section \<open>Notions used in the statements\<close>

text \<open>Events that leave the descriptor table as it is, or only remove from it.\<close>

fun keeps_fds :: "event \<Rightarrow> bool" where
  "keeps_fds (Pipe j True) = False"
| "keeps_fds (Open f flags m True) = False"
| "keeps_fds _ = True"

text \<open>Both ends of the pipes \<open>0\<close> to \<open>n - 1\<close>.\<close>

definition pipe_fds :: "nat \<Rightarrow> fd set" where
  "pipe_fds n = {PipeFd k e | k e. k < n}"

text \<open>
  The pipe ends stage \<open>i\<close> of a pipeline with \<open>num_pipes\<close> pipes is wired to: the write
  end of pipe \<open>i\<close> unless it is the last stage, the read end of pipe \<open>i - 1\<close> unless it is
  the first.
\<close>

definition wired_ends :: "nat \<Rightarrow> nat \<Rightarrow> fd set" where
  "wired_ends num_pipes i =
     (if i < num_pipes then {PipeFd i WriteEnd} else {}) \<union>
     (if 0 < i then {PipeFd (i - 1) ReadEnd} else {})"

text \<open>What the user is told went wrong: \<^verbatim>\<open>perror\<close> and \<^verbatim>\<open>fprintf(stderr, ...)\<close>.\<close>

fun is_error_report :: "event \<Rightarrow> bool" where
  "is_error_report (Perror m) = True"
| "is_error_report (Fprintf_stderr fmt args) = True"
| "is_error_report _ = False"



section \<open>The Stage Launcher: redirection\<close>

lemma redirect_loop_skip:
  assumes "i \<le> k" "k \<le> length args"
    and "\<forall>j. i \<le> j \<and> j < k \<longrightarrow>
           \<not> ((args ! j = ''>'' \<or> args ! j = ''<'') \<and> Suc j < length args)"
  shows "redirect_loop os args i = redirect_loop os args k"
  using assms
proof (induction "k - i" arbitrary: i)
  case 0
  then show ?case by simp
next
  case (Suc n)
  then have lt: "i < k"
    and here: "\<not> ((args ! i = ''>'' \<or> args ! i = ''<'') \<and> Suc i < length args)"
    by auto
  have "redirect_loop os args i = redirect_loop os args (Suc i)"
    using lt Suc.prems(2) here by (subst redirect_loop.simps) auto
  also have "\<dots> = redirect_loop os args k"
    using Suc by (intro Suc.hyps(1)) auto
  finally show ?case .
qed

lemma redirect_loop_end: "redirect_loop os args (length args) = ([], Some args)"
  by (subst redirect_loop.simps) simp

lemma redirect_loop_at:
  assumes "args = pre @ r # fname # rest" "r = ''>'' \<or> r = ''<''"
  shows "redirect_loop os args (length pre) =
     (let flags = (if r = ''>'' then [O_WRONLY, O_CREAT, O_TRUNC] else [O_RDONLY]);
          mode = (if r = ''>'' then Some mode_0644 else None);
          std = (if r = ''>'' then STDOUT_FILENO else STDIN_FILENO)
      in if \<not> open_res os fname flags then
           ([Open fname flags mode False, Perror ''open'', Exit 1], None)
         else if \<not> dup2_res os (FileFd fname) std then
           ([Open fname flags mode True, Dup2 (FileFd fname) std False, Perror ''dup2'',
             Close (FileFd fname), Exit 1], None)
         else ([Open fname flags mode True, Dup2 (FileFd fname) std True, Close (FileFd fname)],
               Some pre))"
  using assms by (subst redirect_loop.simps) (auto simp: Let_def nth_append)

lemma redirect_loop_first:
  assumes "args = pre @ r # fname # rest" "''>'' \<notin> set pre" "''<'' \<notin> set pre"
  shows "redirect_loop os args 0 = redirect_loop os args (length pre)"
proof (rule redirect_loop_skip)
  show "\<forall>j. 0 \<le> j \<and> j < length pre \<longrightarrow>
      \<not> ((args ! j = ''>'' \<or> args ! j = ''<'') \<and> Suc j < length args)"
    using assms by (auto simp: nth_append dest: nth_mem)
qed (use assms(1) in auto)

lemma redirect_loop_none:
  assumes "\<forall>j. Suc j < length args \<longrightarrow> args ! j \<noteq> ''>'' \<and> args ! j \<noteq> ''<''"
  shows "redirect_loop os args 0 = ([], Some args)"
proof -
  have "redirect_loop os args 0 = redirect_loop os args (length args)"
    using assms by (intro redirect_loop_skip) auto
  then show ?thesis by (simp add: redirect_loop_end)
qed

lemma redirect_loop_no_fork_or_pipe:
  "e \<in> set (fst (redirect_loop os args i)) \<Longrightarrow> \<not> is_fork_or_pipe e"
proof (induction os args i rule: redirect_loop.induct)
  case (1 os args i)
  then show ?case
    by (subst (asm) (2) redirect_loop.simps) (auto simp: Let_def split: if_splits)
qed

lemma redirect_loop_events:
  "redirect_loop os args i = (evs, r) \<Longrightarrow> e \<in> set evs \<Longrightarrow> \<not> is_fork_or_pipe e"
  using redirect_loop_no_fork_or_pipe [of e os args i] by simp

lemma execute_single_command_no_fork_or_pipe:
  "e \<in> set (fst (execute_single_command os args)) \<Longrightarrow> \<not> is_fork_or_pipe e"
  by (auto simp: execute_single_command_def split: prod.splits option.splits list.splits if_splits
      dest: redirect_loop_events)

text \<open>
  C4, as the code has it. When the first \<^verbatim>\<open>>\<close> or \<^verbatim>\<open><\<close> of a stage is followed by a
  token, the launcher opens that token as the file of that one redirection (for
  writing with truncation and mode 0644 onto standard output, or for reading onto
  standard input), cuts the argument vector right before the symbol, and looks at
  nothing behind the file name: the stage behaves as if it ended there, so a later
  redirection of either kind is never applied, and every \<^verbatim>\<open>execvp\<close> gets exactly the
  tokens before the symbol.
\<close>

theorem first_redirection_wins:
  assumes "args = pre @ r # fname # rest" and "r = ''>'' \<or> r = ''<''"
    and "''>'' \<notin> set pre" and "''<'' \<notin> set pre"
  shows "redirect_loop os args 0 =
       (let flags = (if r = ''>'' then [O_WRONLY, O_CREAT, O_TRUNC] else [O_RDONLY]);
            mode = (if r = ''>'' then Some mode_0644 else None);
            std = (if r = ''>'' then STDOUT_FILENO else STDIN_FILENO)
        in if \<not> open_res os fname flags then
             ([Open fname flags mode False, Perror ''open'', Exit 1], None)
           else if \<not> dup2_res os (FileFd fname) std then
             ([Open fname flags mode True, Dup2 (FileFd fname) std False, Perror ''dup2'',
               Close (FileFd fname), Exit 1], None)
           else ([Open fname flags mode True, Dup2 (FileFd fname) std True,
                  Close (FileFd fname)], Some pre))
     \<and> execute_single_command os args = execute_single_command os (pre @ [r, fname])
     \<and> (\<forall>prog argv ok. Execvp prog argv ok \<in> set (fst (execute_single_command os args))
           \<longrightarrow> argv = pre)"
proof -
  have full: "redirect_loop os args 0 = redirect_loop os args (length pre)"
    using assms(1,3,4) by (rule redirect_loop_first)
  have short: "redirect_loop os (pre @ [r, fname]) 0 = redirect_loop os (pre @ [r, fname]) (length pre)"
    using assms(3,4) by (intro redirect_loop_first [of _ pre r fname "[]"]) auto
  note at = redirect_loop_at [OF assms(1,2), of os]
  note at' = redirect_loop_at [OF _ assms(2), of "pre @ [r, fname]" pre fname "[]" os, simplified]
  have same: "redirect_loop os args 0 = redirect_loop os (pre @ [r, fname]) 0"
    unfolding full short at at' ..
  have argv: "argv = pre" if "Execvp prog argv ok \<in> set (fst (execute_single_command os args))"
    for prog argv ok
    using that assms(2) unfolding execute_single_command_def full at
    by (auto simp: Let_def split: if_splits list.splits)
  show ?thesis
    using full at same argv by (simp add: execute_single_command_def)
qed

theorem first_redirection_wins_witness:
  "[''sort'', ''>'', ''out'', ''<'', ''in''] = [''sort''] @ ''>'' # ''out'' # [''<'', ''in'']
   \<and> ''>'' \<notin> set [''sort''] \<and> ''<'' \<notin> set [''sort'']
   \<and> execute_single_command sample_os [''sort'', ''>'', ''out'', ''<'', ''in'']
       = execute_single_command sample_os [''sort'', ''>'', ''out'']
   \<and> execute_single_command sample_os [''sort'', ''>'', ''out'']
       = ([Open ''out'' [O_WRONLY, O_CREAT, O_TRUNC] (Some mode_0644) True,
           Dup2 (FileFd ''out'') STDOUT_FILENO True, Close (FileFd ''out''),
           Execvp ''sort'' [''sort''] True], Replaced)"
  using first_redirection_wins [of "[''sort'', ''>'', ''out'', ''<'', ''in'']" "[''sort'']"
      "''>''" "''out''" "[''<'', ''in'']" sample_os]
  by (simp add: execute_single_command_def redirect_loop.simps sample_os_def Let_def)

text \<open>
  C4 as stated fails where the redirection symbol is the last token: the stage holds
  a redirection token, yet nothing is opened and the whole vector, symbol included,
  goes to \<^verbatim>\<open>execvp\<close>.
\<close>

theorem redirection_without_file_counterexample:
  "''>'' \<in> set [''echo'', ''>'']
   \<and> execute_single_command sample_os [''echo'', ''>'']
       = ([Execvp ''echo'' [''echo'', ''>''] True], Replaced)"
  by (simp add: execute_single_command_def redirect_loop.simps sample_os_def Let_def)

text \<open>
  C10, as the code has it. When the last token of a stage is \<^verbatim>\<open>>\<close> or \<^verbatim>\<open><\<close> and no token
  before it is a redirection symbol, the launcher opens and duplicates nothing, reports
  nothing about the symbol, and calls \<^verbatim>\<open>execvp\<close> with the whole vector, the symbol being
  its last argument.
\<close>

theorem lone_trailing_redirection_passed:
  assumes "args = pre @ [r]" and "r = ''>'' \<or> r = ''<''"
    and "''>'' \<notin> set pre" and "''<'' \<notin> set pre"
  shows "execute_single_command os args =
       (if execvp_res os (hd args) args then ([Execvp (hd args) args True], Replaced)
        else ([Execvp (hd args) args False, Perror ''execvp'', Exit 1], Exited 1))
     \<and> last args = r"
proof -
  have "\<forall>j. Suc j < length args \<longrightarrow> args ! j \<noteq> ''>'' \<and> args ! j \<noteq> ''<''"
    using assms(1,3,4) by (auto simp: nth_append dest: nth_mem)
  then have "redirect_loop os args 0 = ([], Some args)"
    by (rule redirect_loop_none)
  moreover obtain a as where "args = a # as"
    using assms(1) by (cases pre) auto
  moreover have "last args = r"
    using assms(1) by simp
  ultimately show ?thesis
    by (simp add: execute_single_command_def)
qed

theorem lone_trailing_redirection_passed_witness:
  "[''echo'', ''hi'', ''>''] = [''echo'', ''hi''] @ [''>'']
   \<and> ''>'' \<notin> set [''echo'', ''hi''] \<and> ''<'' \<notin> set [''echo'', ''hi'']
   \<and> execute_single_command sample_os [''echo'', ''hi'', ''>'']
       = ([Execvp ''echo'' [''echo'', ''hi'', ''>''] True], Replaced)"
  using lone_trailing_redirection_passed [of "[''echo'', ''hi'', ''>'']" "[''echo'', ''hi'']"
      "''>''" sample_os]
  by (simp add: sample_os_def)

text \<open>
  C10 as stated fails where an earlier redirection is honoured: the vector is cut at
  that earlier symbol, and the \<^verbatim>\<open>>\<close> at the end never reaches the program.
\<close>

theorem trailing_redirection_cut_counterexample:
  "last [''cat'', ''<'', ''f'', ''>''] = ''>''
   \<and> execute_single_command sample_os [''cat'', ''<'', ''f'', ''>'']
       = ([Open ''f'' [O_RDONLY] None True, Dup2 (FileFd ''f'') STDIN_FILENO True,
           Close (FileFd ''f''), Execvp ''cat'' [''cat''] True], Replaced)"
  by (simp add: execute_single_command_def redirect_loop.simps sample_os_def Let_def)

section \<open>The Pipeline Splitter\<close>

lemma split_loop_no_pipe:
  "''|'' \<notin> set toks \<Longrightarrow> split_loop toks rows cur = Some (rows @ [cur @ toks])"
  by (induction toks arbitrary: rows cur) auto

text \<open>
  C7. A token sequence without \<^verbatim>\<open>|\<close> is split into one stage, the sequence itself; the
  orchestrator then is the launcher on that stage, and its trace holds no \<^verbatim>\<open>pipe\<close> and
  no \<^verbatim>\<open>fork\<close>.
\<close>

theorem no_pipe_single_stage:
  assumes "''|'' \<notin> set toks"
  shows "split_loop toks [] [] = Some [toks]
    \<and> execute_command_with_pipes_and_redirection os toks = execute_single_command os toks
    \<and> (\<forall>e \<in> set (fst (execute_command_with_pipes_and_redirection os toks)).
          \<not> is_fork_or_pipe e)"
  using assms split_loop_no_pipe [of toks "[]" "[]"]
  by (auto simp: execute_command_with_pipes_and_redirection_def
      dest: execute_single_command_no_fork_or_pipe)

theorem no_pipe_single_stage_witness:
  "''|'' \<notin> set [''ls'', ''-l'']
   \<and> split_loop [''ls'', ''-l''] [] [] = Some [[''ls'', ''-l'']]
   \<and> execute_command_with_pipes_and_redirection sample_os [''ls'', ''-l'']
       = ([Execvp ''ls'' [''ls'', ''-l''] True], Replaced)"
  using no_pipe_single_stage [of "[''ls'', ''-l'']" sample_os]
  by (simp add: execute_single_command_def redirect_loop.simps sample_os_def Let_def)

lemma split_loop_leading_pipe: "split_loop (''|'' # toks) [] [] = None"
  by simp

lemma split_loop_double_pipe: "split_loop (xs @ ''|'' # ''|'' # ys) rows cur = None"
  by (induction xs arbitrary: rows cur) auto

lemma rejected_before_any_pipe:
  "split_loop toks [] [] = None \<Longrightarrow>
   execute_command_with_pipes_and_redirection os toks =
     ([Printf ''Invalid pipe command\<newline>'' []], Returned)"
  by (simp add: execute_command_with_pipes_and_redirection_def)

text \<open>
  C1 at a sequence that ends with \<^verbatim>\<open>|\<close>. The check for an empty stage sits at the
  \<^verbatim>\<open>|\<close> token only, so the leading and the doubled \<^verbatim>\<open>|\<close> are rejected
  (\<open>split_loop_leading_pipe\<close>, \<open>split_loop_double_pipe\<close>, \<open>rejected_before_any_pipe\<close>),
  while the empty stage after a final \<^verbatim>\<open>|\<close> is accepted: for \<^verbatim>\<open>ls |\<close> the splitter returns
  the stages \<^verbatim>\<open>ls\<close> and the empty one, nothing is reported, and the orchestrating process
  creates one pipe and forks two children.
\<close>

theorem trailing_pipe_is_spawned:
  "split_loop [''ls'', ''|''] [] [] = Some [[''ls''], []]
   \<and> execute_command_with_pipes_and_redirection sample_os [''ls'', ''|'']
       = ([Pipe 0 True, Fork 100, Fork 101, Close (PipeFd 0 ReadEnd),
           Close (PipeFd 0 WriteEnd), Waitpid 100, Waitpid 101], Returned)"
  by (simp add: execute_command_with_pipes_and_redirection_def create_pipes.simps
      spawn_stages.simps close_and_wait_def close_both_def sample_os_def)

section \<open>The Pipeline Orchestrator\<close>

lemma create_pipes_ok:
  "\<forall>k. pipe_index \<le> k \<and> k < num_pipes \<longrightarrow> pipe_res os k \<Longrightarrow>
   create_pipes os pipe_index num_pipes = (map (\<lambda>k. Pipe k True) [pipe_index..<num_pipes], True)"
proof (induction os pipe_index num_pipes rule: create_pipes.induct)
  case (1 os pipe_index num_pipes)
  show ?case
  proof (cases "pipe_index < num_pipes")
    case True
    then have "pipe_res os pipe_index" using "1.prems" by simp
    moreover have "create_pipes os (Suc pipe_index) num_pipes =
        (map (\<lambda>k. Pipe k True) [Suc pipe_index..<num_pipes], True)"
      using True \<open>pipe_res os pipe_index\<close> "1.prems" by (intro "1.IH") auto
    ultimately show ?thesis
      using True by (subst create_pipes.simps) (simp add: upt_conv_Cons)
  next
    case False
    then show ?thesis by (subst create_pipes.simps) simp
  qed
qed

lemma spawn_stages_parent:
  "\<forall>k. cmd_index \<le> k \<and> k \<le> num_pipes \<longrightarrow> 0 < fork_res os k \<Longrightarrow>
   spawn_stages os cmds num_pipes cmd_index =
     (map (\<lambda>k. Fork (fork_res os k)) [cmd_index..<Suc num_pipes] @ close_and_wait os num_pipes,
      Returned)"
proof (induction os cmds num_pipes cmd_index rule: spawn_stages.induct)
  case (1 os cmds num_pipes cmd_index)
  show ?case
  proof (cases "cmd_index < num_pipes + 1")
    case True
    then have pos: "0 < fork_res os cmd_index" using "1.prems" by simp
    have "spawn_stages os cmds num_pipes (Suc cmd_index) =
        (map (\<lambda>k. Fork (fork_res os k)) [Suc cmd_index..<Suc num_pipes] @
         close_and_wait os num_pipes, Returned)"
      using True pos "1.prems" by (intro "1.IH") auto
    moreover have "[cmd_index..<Suc num_pipes] = cmd_index # [Suc cmd_index..<Suc num_pipes]"
      using True by (simp add: upt_conv_Cons del: upt_Suc)
    ultimately show ?thesis
      using True pos by (subst spawn_stages.simps) (simp del: upt_Suc)
  next
    case False
    then show ?thesis by (subst spawn_stages.simps) simp
  qed
qed

lemma spawn_stages_child:
  "\<forall>k. cmd_index \<le> k \<and> k < i \<longrightarrow> 0 < fork_res os k \<Longrightarrow> fork_res os i = 0 \<Longrightarrow>
   cmd_index \<le> i \<Longrightarrow> i \<le> num_pipes \<Longrightarrow>
   spawn_stages os cmds num_pipes cmd_index =
     (map (\<lambda>k. Fork (fork_res os k)) [cmd_index..<i] @
      Fork 0 # fst (stage_child os cmds num_pipes i), snd (stage_child os cmds num_pipes i))"
proof (induction os cmds num_pipes cmd_index rule: spawn_stages.induct)
  case (1 os cmds num_pipes cmd_index)
  show ?case
  proof (cases "cmd_index = i")
    case True
    then show ?thesis
      using "1.prems" by (subst spawn_stages.simps) (simp split: prod.splits)
  next
    case False
    then have lt: "cmd_index < i" using "1.prems" by simp
    then have pos: "0 < fork_res os cmd_index" using "1.prems" by simp
    have "spawn_stages os cmds num_pipes (Suc cmd_index) =
        (map (\<lambda>k. Fork (fork_res os k)) [Suc cmd_index..<i] @
         Fork 0 # fst (stage_child os cmds num_pipes i), snd (stage_child os cmds num_pipes i))"
      using lt pos "1.prems" by (intro "1.IH") auto
    moreover have "[cmd_index..<i] = cmd_index # [Suc cmd_index..<i]"
      using lt by (simp add: upt_conv_Cons)
    moreover have "cmd_index < num_pipes + 1"
      using lt "1.prems" by simp
    ultimately show ?thesis
      using pos by (subst spawn_stages.simps) simp
  qed
qed

lemma fold_pipes:
  "fold apply_event (map (\<lambda>k. Pipe k True) [0..<n]) fds = fds \<union> pipe_fds n"
proof (induction n)
  case 0
  then show ?case by (simp add: pipe_fds_def)
next
  case (Suc n)
  have "pipe_fds (Suc n) = insert (PipeFd n ReadEnd) (insert (PipeFd n WriteEnd) (pipe_fds n))"
    (is "?L = ?R")
  proof
    show "?L \<subseteq> ?R"
    proof
      fix d assume "d \<in> ?L"
      then obtain k e where "d = PipeFd k e" "k < Suc n" by (auto simp: pipe_fds_def)
      then show "d \<in> ?R" by (cases e; cases "k = n") (auto simp: pipe_fds_def)
    qed
    show "?R \<subseteq> ?L" by (auto simp: pipe_fds_def)
  qed
  with Suc show ?case by simp
qed

lemma mem_fold_closes:
  "\<forall>e \<in> set evs. keeps_fds e \<Longrightarrow>
   d \<in> fold apply_event evs fds \<longleftrightarrow> d \<in> fds \<and> Close d \<notin> set evs"
proof (induction evs arbitrary: fds)
  case Nil
  then show ?case by simp
next
  case (Cons e evs)
  then have "keeps_fds e" by simp
  then have "d \<in> apply_event e fds \<longleftrightarrow> d \<in> fds \<and> e \<noteq> Close d"
    by (cases e rule: keeps_fds.cases) auto
  with Cons show ?case by auto
qed

lemma close_in_close_both:
  "Close d \<in> set (close_both j) \<longleftrightarrow> d = PipeFd j ReadEnd \<or> d = PipeFd j WriteEnd"
  by (auto simp: close_both_def)

lemma keeps_close_both: "e \<in> set (close_both j) \<Longrightarrow> keeps_fds e"
  by (auto simp: close_both_def)

lemma wire_stage_keeps:
  "wire_stage os n i = (w, ok) \<Longrightarrow> e \<in> set w \<Longrightarrow> keeps_fds e"
  by (auto simp: wire_stage_def keeps_close_both split: if_splits)

lemma pipe_fds_iff: "PipeFd k e \<in> pipe_fds n \<longleftrightarrow> k < n"
  by (auto simp: pipe_fds_def)

lemma wire_stage_closes:
  assumes "wire_stage os n i = (w, True)" "0 < n" "i \<le> n"
  shows "(d \<in> pipe_fds n \<and> Close d \<notin> set w) \<longleftrightarrow> d \<in> wired_ends n i"
proof (cases d)
  case (PipeFd k e)
  consider "i = 0" | "i = n" | "0 < i" "i < n" using assms(3) by linarith
  then show ?thesis
  proof cases
    case 1
    then show ?thesis
      using assms PipeFd
      by (cases e) (auto simp: wire_stage_def wired_ends_def pipe_fds_iff close_in_close_both
          split: if_splits)
  next
    case 2
    then show ?thesis
      using assms PipeFd
      by (cases e) (auto simp: wire_stage_def wired_ends_def pipe_fds_iff close_in_close_both
          split: if_splits)
  next
    case 3
    then show ?thesis
      using assms PipeFd
      by (cases e) (auto simp: wire_stage_def wired_ends_def pipe_fds_iff close_in_close_both
          split: if_splits)
  qed
qed (auto simp: pipe_fds_def wired_ends_def)

lemma close_and_wait_keeps: "e \<in> set (close_and_wait os n) \<Longrightarrow> keeps_fds e"
  by (auto simp: close_and_wait_def keeps_close_both)

lemma close_and_wait_closes:
  assumes "d \<in> pipe_fds n"
  shows "Close d \<in> set (close_and_wait os n)"
proof -
  obtain k e where d: "d = PipeFd k e" and k: "k < n"
    using assms by (auto simp: pipe_fds_def)
  have "Close d \<in> set (close_both k)"
    unfolding d by (cases e) (simp_all add: close_both_def)
  with k show ?thesis
    by (auto simp: close_and_wait_def)
qed

lemma close_and_wait_counts:
  "filter is_pipe_created (close_and_wait os n) = []"
  "filter is_spawned (close_and_wait os n) = []"
  by (auto simp: close_and_wait_def close_both_def filter_empty_conv)

text \<open>
  C2. Let the splitter accept the tokens with \<open>N \<ge> 2\<close> stages, and let every \<^verbatim>\<open>pipe\<close> and
  every \<^verbatim>\<open>fork\<close> succeed in the orchestrating process (\<^verbatim>\<open>fork\<close> returns a child's id each
  time). Then its trace is: \<open>N - 1\<close> pipes, then \<open>N\<close> forks, then both ends of every pipe
  closed, then \<open>N\<close> waits, and it returns. So \<open>N - 1\<close> pipes are created, \<open>N\<close> children are
  spawned, and no descriptor is open at the end.
\<close>

theorem orchestrator_pipes_and_stages:
  assumes "split_loop toks [] [] = Some cmds" and "2 \<le> length cmds"
    and "\<forall>k. k < length cmds - 1 \<longrightarrow> pipe_res os k"
    and "\<forall>k. k < length cmds \<longrightarrow> 0 < fork_res os k"
  shows "execute_command_with_pipes_and_redirection os toks =
       (map (\<lambda>k. Pipe k True) [0..<length cmds - 1] @
        map (\<lambda>k. Fork (fork_res os k)) [0..<length cmds] @
        concat (map close_both [0..<length cmds - 1]) @
        map (\<lambda>k. Waitpid (fork_res os k)) [0..<length cmds], Returned)
     \<and> length (filter is_pipe_created
          (fst (execute_command_with_pipes_and_redirection os toks))) = length cmds - 1
     \<and> length (filter is_spawned
          (fst (execute_command_with_pipes_and_redirection os toks))) = length cmds
     \<and> open_fds (fst (execute_command_with_pipes_and_redirection os toks)) = {}"
proof -
  define n where "n = length cmds - 1"
  have n: "0 < n" "length cmds = Suc n"
    using assms(2) by (auto simp: n_def)
  let ?pipes = "map (\<lambda>k. Pipe k True) [0..<n]"
  let ?forks = "map (\<lambda>k. Fork (fork_res os k)) [0..<Suc n]"
  have pipes: "create_pipes os 0 n = (?pipes, True)"
    using assms(3) by (intro create_pipes_ok) (simp add: n_def)
  have spawn: "spawn_stages os cmds n 0 = (?forks @ close_and_wait os n, Returned)"
    using assms(4) n by (intro spawn_stages_parent) auto
  have run: "execute_command_with_pipes_and_redirection os toks =
      (?pipes @ ?forks @ close_and_wait os n, Returned)"
    using assms(1) n pipes spawn
    by (simp add: execute_command_with_pipes_and_redirection_def n_def [symmetric])
  have forks_spawned: "filter is_spawned ?forks = ?forks"
    using assms(4) n by (auto simp: filter_id_conv)
  have count_pipes: "length (filter is_pipe_created (?pipes @ ?forks @ close_and_wait os n)) = n"
    by (simp add: close_and_wait_counts filter_map o_def del: upt_Suc)
  have "length (filter is_spawned (?pipes @ ?forks @ close_and_wait os n))
      = length (filter is_spawned ?forks)"
    by (simp add: close_and_wait_counts filter_map o_def del: upt_Suc)
  then have count_forks: "length (filter is_spawned (?pipes @ ?forks @ close_and_wait os n)) = Suc n"
    unfolding forks_spawned by simp
  have keeps: "\<forall>e \<in> set (?forks @ close_and_wait os n). keeps_fds e"
    by (auto dest: close_and_wait_keeps)
  have "d \<notin> open_fds (?pipes @ ?forks @ close_and_wait os n)" for d
  proof
    assume "d \<in> open_fds (?pipes @ ?forks @ close_and_wait os n)"
    then have "d \<in> fold apply_event (?forks @ close_and_wait os n) (pipe_fds n)"
      by (simp add: open_fds_def fold_pipes del: upt_Suc)
    then have "d \<in> pipe_fds n" "Close d \<notin> set (?forks @ close_and_wait os n)"
      using mem_fold_closes [OF keeps] by blast+
    then show False
      using close_and_wait_closes [of d n os] by simp
  qed
  then have closed: "open_fds (?pipes @ ?forks @ close_and_wait os n) = {}"
    by blast
  show ?thesis
    unfolding run using count_pipes count_forks closed n
    by (simp add: close_and_wait_def n_def [symmetric] del: upt_Suc)
qed

theorem orchestrator_pipes_and_stages_witness:
  "split_loop [''ls'', ''|'', ''sort'', ''|'', ''wc''] [] [] = Some [[''ls''], [''sort''], [''wc'']]
   \<and> pipe_res sample_os 0 \<and> pipe_res sample_os 1
   \<and> 0 < fork_res sample_os 0 \<and> 0 < fork_res sample_os 1 \<and> 0 < fork_res sample_os 2
   \<and> execute_command_with_pipes_and_redirection sample_os [''ls'', ''|'', ''sort'', ''|'', ''wc'']
       = ([Pipe 0 True, Pipe 1 True, Fork 100, Fork 101, Fork 102,
           Close (PipeFd 0 ReadEnd), Close (PipeFd 0 WriteEnd),
           Close (PipeFd 1 ReadEnd), Close (PipeFd 1 WriteEnd),
           Waitpid 100, Waitpid 101, Waitpid 102], Returned)
   \<and> open_fds (fst (execute_command_with_pipes_and_redirection sample_os
        [''ls'', ''|'', ''sort'', ''|'', ''wc''])) = {}"
proof -
  let ?toks = "[''ls'', ''|'', ''sort'', ''|'', ''wc'']"
  let ?cmds = "[[''ls''], [''sort''], [''wc'']]"
  have split: "split_loop ?toks [] [] = Some ?cmds" and len: "2 \<le> length ?cmds"
    by simp_all
  have pipes: "pipe_res sample_os 0" "pipe_res sample_os 1"
    and forks: "0 < fork_res sample_os 0" "0 < fork_res sample_os 1" "0 < fork_res sample_os 2"
    by (simp_all add: sample_os_def)
  have pipes': "\<forall>k. k < length ?cmds - 1 \<longrightarrow> pipe_res sample_os k"
    and forks': "\<forall>k. k < length ?cmds \<longrightarrow> 0 < fork_res sample_os k"
    by (simp_all add: sample_os_def)
  note all = orchestrator_pipes_and_stages [OF split len pipes' forks']
  note run = all [THEN conjunct1]
  note closed = all [THEN conjunct2, THEN conjunct2, THEN conjunct2]
  have "[0..<3] = [0, 1, 2]" "[0..<2] = [0, 1]"
    by (simp_all add: upt_conv_Cons)
  then have trace: "execute_command_with_pipes_and_redirection sample_os ?toks =
       ([Pipe 0 True, Pipe 1 True, Fork 100, Fork 101, Fork 102,
         Close (PipeFd 0 ReadEnd), Close (PipeFd 0 WriteEnd),
         Close (PipeFd 1 ReadEnd), Close (PipeFd 1 WriteEnd),
         Waitpid 100, Waitpid 101, Waitpid 102], Returned)"
    unfolding run by (simp add: sample_os_def close_both_def)
  show ?thesis
    by (intro conjI) (rule split pipes forks trace closed)+
qed

text \<open>
  C6, as the code has it. Let stage \<open>i\<close> of an accepted pipeline of \<open>N \<ge> 2\<close> stages be
  forked (every pipe was created, the stages before it were spawned, \<^verbatim>\<open>fork\<close> returned 0)
  and let its \<^verbatim>\<open>dup2\<close> calls succeed, \<open>w\<close> being the trace of the wiring. The child then
  runs the launcher on its own stage, and at that call the pipe descriptors it holds
  are exactly the ends it was wired to: both ends of every other pipe and the far end
  of its own pipes are closed, the descriptors it duplicated are not.
\<close>

theorem stage_child_keeps_wired_ends:
  assumes "split_loop toks [] [] = Some cmds" and "2 \<le> length cmds"
    and "\<forall>k. k < length cmds - 1 \<longrightarrow> pipe_res os k"
    and "i < length cmds" and "\<forall>k. k < i \<longrightarrow> 0 < fork_res os k" and "fork_res os i = 0"
    and "wire_stage os (length cmds - 1) i = (w, True)"
  shows "fst (execute_command_with_pipes_and_redirection os toks) =
       (map (\<lambda>k. Pipe k True) [0..<length cmds - 1] @
        map (\<lambda>k. Fork (fork_res os k)) [0..<i] @ Fork 0 # w) @
       fst (execute_single_command os (cmds ! i)) @
       (if snd (execute_single_command os (cmds ! i)) = Returned then [Exit 1] else [])
     \<and> open_fds (map (\<lambda>k. Pipe k True) [0..<length cmds - 1] @
          map (\<lambda>k. Fork (fork_res os k)) [0..<i] @ Fork 0 # w) = wired_ends (length cmds - 1) i"
proof -
  define n where "n = length cmds - 1"
  have n: "0 < n" "i \<le> n" "length cmds = Suc n"
    using assms(2,4) by (auto simp: n_def)
  let ?pipes = "map (\<lambda>k. Pipe k True) [0..<n]"
  let ?forks = "map (\<lambda>k. Fork (fork_res os k)) [0..<i]"
  let ?launch = "execute_single_command os (cmds ! i)"
  have pipes: "create_pipes os 0 n = (?pipes, True)"
    using assms(3) by (intro create_pipes_ok) (simp add: n_def)
  have spawn: "spawn_stages os cmds n 0 =
      (?forks @ Fork 0 # fst (stage_child os cmds n i), snd (stage_child os cmds n i))"
    using assms(5,6) n by (intro spawn_stages_child) auto
  have child: "fst (stage_child os cmds n i) =
      w @ fst ?launch @ (if snd ?launch = Returned then [Exit 1] else [])"
    using assms(7) unfolding n_def [symmetric]
    by (cases ?launch; cases "snd ?launch") (auto simp: stage_child_def)
  have run: "fst (execute_command_with_pipes_and_redirection os toks) =
      (?pipes @ ?forks @ Fork 0 # w) @ fst ?launch @
      (if snd ?launch = Returned then [Exit 1] else [])"
    using assms(1) n pipes spawn child
    by (simp add: execute_command_with_pipes_and_redirection_def)
  have keeps: "\<forall>e \<in> set (?forks @ Fork 0 # w). keeps_fds e"
    using wire_stage_keeps [OF assms(7)] by auto
  have "d \<in> open_fds (?pipes @ ?forks @ Fork 0 # w) \<longleftrightarrow> d \<in> wired_ends n i" for d
  proof -
    have "d \<in> open_fds (?pipes @ ?forks @ Fork 0 # w) \<longleftrightarrow>
        d \<in> fold apply_event (?forks @ Fork 0 # w) (pipe_fds n)"
      by (simp add: open_fds_def fold_pipes)
    also have "\<dots> \<longleftrightarrow> d \<in> pipe_fds n \<and> Close d \<notin> set (?forks @ Fork 0 # w)"
      using mem_fold_closes [OF keeps] by blast
    also have "\<dots> \<longleftrightarrow> d \<in> pipe_fds n \<and> Close d \<notin> set w"
      by auto
    also have "\<dots> \<longleftrightarrow> d \<in> wired_ends n i"
      using assms(7) n(1,2) unfolding n_def [symmetric] by (rule wire_stage_closes)
    finally show ?thesis .
  qed
  then have "open_fds (?pipes @ ?forks @ Fork 0 # w) = wired_ends n i"
    by blast
  with run show ?thesis
    unfolding n_def by simp
qed

theorem stage_child_keeps_wired_ends_witness:
  "split_loop [''ls'', ''|'', ''sort'', ''|'', ''wc''] [] [] = Some [[''ls''], [''sort''], [''wc'']]
   \<and> pipe_res (sample_os\<lparr>fork_res := (\<lambda>k. if k = 1 then 0 else 100)\<rparr>) 0
   \<and> pipe_res (sample_os\<lparr>fork_res := (\<lambda>k. if k = 1 then 0 else 100)\<rparr>) 1
   \<and> 0 < fork_res (sample_os\<lparr>fork_res := (\<lambda>k. if k = 1 then 0 else 100)\<rparr>) 0
   \<and> fork_res (sample_os\<lparr>fork_res := (\<lambda>k. if k = 1 then 0 else 100)\<rparr>) 1 = 0
   \<and> wire_stage (sample_os\<lparr>fork_res := (\<lambda>k. if k = 1 then 0 else 100)\<rparr>) 2 1
       = ([Dup2 (PipeFd 0 ReadEnd) STDIN_FILENO True, Dup2 (PipeFd 1 WriteEnd) STDOUT_FILENO True,
           Close (PipeFd 0 WriteEnd), Close (PipeFd 1 ReadEnd)], True)
   \<and> fst (execute_command_with_pipes_and_redirection
        (sample_os\<lparr>fork_res := (\<lambda>k. if k = 1 then 0 else 100)\<rparr>)
        [''ls'', ''|'', ''sort'', ''|'', ''wc''])
       = [Pipe 0 True, Pipe 1 True, Fork 100, Fork 0,
          Dup2 (PipeFd 0 ReadEnd) STDIN_FILENO True, Dup2 (PipeFd 1 WriteEnd) STDOUT_FILENO True,
          Close (PipeFd 0 WriteEnd), Close (PipeFd 1 ReadEnd), Execvp ''sort'' [''sort''] True]
   \<and> open_fds [Pipe 0 True, Pipe 1 True, Fork 100, Fork 0,
          Dup2 (PipeFd 0 ReadEnd) STDIN_FILENO True, Dup2 (PipeFd 1 WriteEnd) STDOUT_FILENO True,
          Close (PipeFd 0 WriteEnd), Close (PipeFd 1 ReadEnd)]
       = {PipeFd 1 WriteEnd, PipeFd 0 ReadEnd}"
proof -
  let ?toks = "[''ls'', ''|'', ''sort'', ''|'', ''wc'']"
  let ?cmds = "[[''ls''], [''sort''], [''wc'']]"
  let ?os = "sample_os\<lparr>fork_res := (\<lambda>k. if k = 1 then 0 else 100)\<rparr>"
  let ?w = "[Dup2 (PipeFd 0 ReadEnd) STDIN_FILENO True, Dup2 (PipeFd 1 WriteEnd) STDOUT_FILENO True,
             Close (PipeFd 0 WriteEnd), Close (PipeFd 1 ReadEnd)]"
  let ?before = "[Pipe 0 True, Pipe 1 True, Fork 100, Fork 0] @ ?w"
  have split: "split_loop ?toks [] [] = Some ?cmds" and len: "2 \<le> length ?cmds"
    and i: "(1::nat) < length ?cmds"
    by simp_all
  have pipes: "pipe_res ?os 0" "pipe_res ?os 1"
    and parent: "0 < fork_res ?os 0" and child: "fork_res ?os 1 = 0"
    and forks: "\<forall>k. k < (1::nat) \<longrightarrow> 0 < fork_res ?os k"
    by (simp_all add: sample_os_def)
  have wire: "wire_stage ?os 2 1 = (?w, True)"
    by (simp add: wire_stage_def sample_os_def close_both_def upt_conv_Cons)
  have launch: "execute_single_command ?os (?cmds ! 1) = ([Execvp ''sort'' [''sort''] True], Replaced)"
    by (simp add: execute_single_command_def redirect_loop.simps sample_os_def)
  have before: "map (\<lambda>k. Pipe k True) [0..<length ?cmds - 1] @
      map (\<lambda>k. Fork (fork_res ?os k)) [0..<1] @ Fork 0 # ?w = ?before"
    by (simp add: upt_conv_Cons sample_os_def)
  have ends: "wired_ends (length ?cmds - 1) 1 = {PipeFd 1 WriteEnd, PipeFd 0 ReadEnd}"
    by (auto simp: wired_ends_def)
  have pipes': "\<forall>k. k < length ?cmds - 1 \<longrightarrow> pipe_res ?os k"
    and wire': "wire_stage ?os (length ?cmds - 1) 1 = (?w, True)"
    by (simp_all add: wire_stage_def sample_os_def close_both_def upt_conv_Cons)
  note all = stage_child_keeps_wired_ends [OF split len pipes' i forks child wire']
  have trace: "fst (execute_command_with_pipes_and_redirection ?os ?toks) =
        ?before @ [Execvp ''sort'' [''sort''] True]"
    using all [THEN conjunct1] unfolding before launch by simp
  have held: "open_fds ?before = {PipeFd 1 WriteEnd, PipeFd 0 ReadEnd}"
    using all [THEN conjunct2] unfolding before ends .
  have trace': "fst (execute_command_with_pipes_and_redirection ?os ?toks) =
      [Pipe 0 True, Pipe 1 True, Fork 100, Fork 0,
       Dup2 (PipeFd 0 ReadEnd) STDIN_FILENO True, Dup2 (PipeFd 1 WriteEnd) STDOUT_FILENO True,
       Close (PipeFd 0 WriteEnd), Close (PipeFd 1 ReadEnd), Execvp ''sort'' [''sort''] True]"
    using trace by simp
  have held': "open_fds [Pipe 0 True, Pipe 1 True, Fork 100, Fork 0,
       Dup2 (PipeFd 0 ReadEnd) STDIN_FILENO True, Dup2 (PipeFd 1 WriteEnd) STDOUT_FILENO True,
       Close (PipeFd 0 WriteEnd), Close (PipeFd 1 ReadEnd)]
      = {PipeFd 1 WriteEnd, PipeFd 0 ReadEnd}"
    using held by simp
  show ?thesis
    by (intro conjI) (rule split pipes parent child wire trace' held')+
qed

text \<open>
  C6 as stated fails in every stage child: the first child of \<^verbatim>\<open>ls | wc\<close> duplicates the
  write end of pipe 0 onto standard output and closes the read end only, so the
  original write descriptor is still open when \<^verbatim>\<open>execvp\<close> is called.
\<close>

theorem stage_child_original_end_open_counterexample:
  "execute_command_with_pipes_and_redirection (sample_os\<lparr>fork_res := (\<lambda>k. 0)\<rparr>)
       [''ls'', ''|'', ''wc'']
     = ([Pipe 0 True, Fork 0, Dup2 (PipeFd 0 WriteEnd) STDOUT_FILENO True,
         Close (PipeFd 0 ReadEnd), Execvp ''ls'' [''ls''] True], Replaced)
   \<and> open_fds [Pipe 0 True, Fork 0, Dup2 (PipeFd 0 WriteEnd) STDOUT_FILENO True,
         Close (PipeFd 0 ReadEnd)] = {PipeFd 0 WriteEnd}"
  by (simp add: execute_command_with_pipes_and_redirection_def create_pipes.simps
      spawn_stages.simps stage_child_def wire_stage_def execute_single_command_def
      redirect_loop.simps open_fds_def sample_os_def)

section \<open>Output redirection and the file\<close>

text \<open>
  C8. Let \<^verbatim>\<open>>\<close> be the first redirection symbol of a stage, followed by a file name and
  preceded by a command, and let \<^verbatim>\<open>open\<close>, \<^verbatim>\<open>dup2\<close> and \<^verbatim>\<open>execvp\<close> succeed. The launcher
  opens the file with exactly \<^verbatim>\<open>O_WRONLY | O_CREAT | O_TRUNC\<close> and mode 0644 (octal, 420),
  with no \<^verbatim>\<open>O_APPEND\<close>. Under the file model above the file then holds exactly what the
  program printed, whatever it held before, so a second run with the same output
  leaves the files as the first run left them.
\<close>

theorem output_redirection_truncates:
  assumes "args = pre @ ''>'' # fname # rest" and "''>'' \<notin> set pre" and "''<'' \<notin> set pre"
    and "pre \<noteq> []"
    and "open_res os fname [O_WRONLY, O_CREAT, O_TRUNC]"
    and "dup2_res os (FileFd fname) STDOUT_FILENO"
    and "execvp_res os (hd pre) pre"
  shows "fst (execute_single_command os args) =
       [Open fname [O_WRONLY, O_CREAT, O_TRUNC] (Some mode_0644) True,
        Dup2 (FileFd fname) STDOUT_FILENO True, Close (FileFd fname),
        Execvp (hd pre) pre True]
     \<and> mode_0644 = 420
     \<and> run_stage os args out fs = fs(fname \<mapsto> out)
     \<and> run_stage os args out (run_stage os args out fs) = run_stage os args out fs"
proof -
  have "redirect_loop os args 0 = redirect_loop os args (length pre)"
    using assms(1-3) by (rule redirect_loop_first)
  also have "\<dots> =
      ([Open fname [O_WRONLY, O_CREAT, O_TRUNC] (Some mode_0644) True,
        Dup2 (FileFd fname) STDOUT_FILENO True, Close (FileFd fname)], Some pre)"
    using redirect_loop_at [OF assms(1), of os] assms(5,6) by (simp add: Let_def)
  finally have trace: "execute_single_command os args =
      ([Open fname [O_WRONLY, O_CREAT, O_TRUNC] (Some mode_0644) True,
        Dup2 (FileFd fname) STDOUT_FILENO True, Close (FileFd fname),
        Execvp (hd pre) pre True], Replaced)"
    using assms(4,7) by (cases pre) (simp_all add: execute_single_command_def)
  have files: "run_stage os args out fs' = fs'(fname \<mapsto> out)" for fs'
    unfolding run_stage_def trace by (auto simp: fun_eq_iff)
  show ?thesis
    using trace files by (simp add: mode_0644_def)
qed

theorem output_redirection_truncates_witness:
  "[''echo'', ''hi'', ''>'', ''f''] = [''echo'', ''hi''] @ ''>'' # ''f'' # []
   \<and> ''>'' \<notin> set [''echo'', ''hi''] \<and> ''<'' \<notin> set [''echo'', ''hi'']
   \<and> open_res sample_os ''f'' [O_WRONLY, O_CREAT, O_TRUNC]
   \<and> dup2_res sample_os (FileFd ''f'') STDOUT_FILENO
   \<and> execvp_res sample_os ''echo'' [''echo'', ''hi'']
   \<and> run_stage sample_os [''echo'', ''hi'', ''>'', ''f''] ''hi'' (\<lambda>f. Some ''old content'') ''f''
       = Some ''hi''
   \<and> run_stage sample_os [''echo'', ''hi'', ''>'', ''f''] ''hi''
        (run_stage sample_os [''echo'', ''hi'', ''>'', ''f''] ''hi'' (\<lambda>f. Some ''old content''))
       = run_stage sample_os [''echo'', ''hi'', ''>'', ''f''] ''hi'' (\<lambda>f. Some ''old content'')"
proof -
  have os: "open_res sample_os ''f'' [O_WRONLY, O_CREAT, O_TRUNC]"
    "dup2_res sample_os (FileFd ''f'') STDOUT_FILENO"
    and exec: "execvp_res sample_os ''echo'' [''echo'', ''hi'']"
    by (simp_all add: sample_os_def)
  have exec': "execvp_res sample_os (hd [''echo'', ''hi'']) [''echo'', ''hi'']"
    using exec by simp
  have shape: "[''echo'', ''hi'', ''>'', ''f''] = [''echo'', ''hi''] @ ''>'' # ''f'' # []"
    and pre: "''>'' \<notin> set [''echo'', ''hi'']" "''<'' \<notin> set [''echo'', ''hi'']"
    and cmd: "[''echo'', ''hi''] \<noteq> []"
    by simp_all
  note all = output_redirection_truncates [OF shape pre cmd os exec',
      of "''hi''" "\<lambda>f. Some ''old content''"]
  note files = all [THEN conjunct2, THEN conjunct2, THEN conjunct1]
  note twice = all [THEN conjunct2, THEN conjunct2, THEN conjunct2]
  have content: "run_stage sample_os [''echo'', ''hi'', ''>'', ''f''] ''hi''
      (\<lambda>f. Some ''old content'') ''f'' = Some ''hi''"
    unfolding files by simp
  show ?thesis
    by (intro conjI) (rule shape pre os exec content twice)+
qed

section \<open>The Foreground Supervisor\<close>

text \<open>
  C9. In the shell process (both \<^verbatim>\<open>fork\<close> calls returned a process id) a foreground job
  is: the two forks, the wait for the child, the interrupt sent to the watchdog and the
  wait for it, then the report. An error is reported exactly when the child exited
  with a status other than 0; a child ended by a signal is reported in no way.
\<close>

theorem status_report_iff_nonzero_exit:
  assumes "0 < fork_child os" and "0 < fork_timeout os"
  shows "run_external os st command_arguments False =
       ([Fork (fork_child os), Fork (fork_timeout os), Waitpid (fork_child os),
         Kill (fork_timeout os), Waitpid (fork_timeout os)] @ report_status (wait_res os),
        Continue (st\<lparr>foreground_process_id := fork_child os\<rparr>))
     \<and> ((\<exists>e \<in> set (fst (run_external os st command_arguments False)). is_error_report e)
          \<longleftrightarrow> (\<exists>code. wait_res os = WExited code \<and> code \<noteq> 0))
     \<and> (\<forall>code. wait_res os = WExited code \<and> code \<noteq> 0 \<longrightarrow>
          report_status (wait_res os) =
            [Fprintf_stderr ''Process exited with status %d\<newline>'' [I (int code)]])
     \<and> (\<forall>sig. wait_res os = WSignaled sig \<longrightarrow> report_status (wait_res os) = [])"
  using assms
  by (cases "wait_res os") (auto simp: run_external_def report_status_def Let_def)

theorem status_report_iff_nonzero_exit_witness:
  "0 < fork_child (sample_os\<lparr>wait_res := WExited 2\<rparr>)
   \<and> 0 < fork_timeout (sample_os\<lparr>wait_res := WExited 2\<rparr>)
   \<and> run_external (sample_os\<lparr>wait_res := WExited 2\<rparr>) \<lparr>foreground_process_id = - 1\<rparr>
        [''false''] False
       = ([Fork 4242, Fork 4243, Waitpid 4242, Kill 4243, Waitpid 4243,
           Fprintf_stderr ''Process exited with status %d\<newline>'' [I 2]],
          Continue \<lparr>foreground_process_id = 4242\<rparr>)
   \<and> run_external (sample_os\<lparr>wait_res := WSignaled 2\<rparr>) \<lparr>foreground_process_id = - 1\<rparr>
        [''sleep'', ''30''] False
       = ([Fork 4242, Fork 4243, Waitpid 4242, Kill 4243, Waitpid 4243],
          Continue \<lparr>foreground_process_id = 4242\<rparr>)"
proof -
  have forks: "0 < fork_child (sample_os\<lparr>wait_res := w\<rparr>)"
    "0 < fork_timeout (sample_os\<lparr>wait_res := w\<rparr>)" for w
    by (simp_all add: sample_os_def)
  note exited = status_report_iff_nonzero_exit [OF forks, of "WExited 2"
      "\<lparr>foreground_process_id = - 1\<rparr>" "[''false'']", THEN conjunct1]
  note signaled = status_report_iff_nonzero_exit [OF forks, of "WSignaled 2"
      "\<lparr>foreground_process_id = - 1\<rparr>" "[''sleep'', ''30'']", THEN conjunct1]
  show ?thesis
    unfolding exited signaled by (simp add: sample_os_def report_status_def)
qed

text \<open>
  C3 at the command line \<^verbatim>\<open>ls\<close>. The shell forks the child 4242 and the watchdog 4243,
  waits for both and goes back to the prompt with \<^verbatim>\<open>foreground_process_id\<close> still 4242:
  no statement after the waits stores the sentinel. An interrupt at the next prompt is
  then sent on to process 4242, which has already been reaped.
\<close>

theorem foreground_registration_left_stale:
  "fgets_res sample_os = Line ''ls\<newline>''
   \<and> main_iteration sample_os \<lparr>foreground_process_id = - 1\<rparr>
       = ([Printf ''%s %s'' [S ''/home'', S ''> ''], Fork 4242, Fork 4243, Waitpid 4242,
           Kill 4243, Waitpid 4243], Continue \<lparr>foreground_process_id = 4242\<rparr>)
   \<and> handle_interrupt_signal \<lparr>foreground_process_id = 4242\<rparr> = [Kill 4242]"
  by (simp add: main_iteration_def dispatch_def run_external_def report_status_def
      strip_newline_def strip_background_def writes_before_buffer_def tokenize_def
      process_token_quotes_def TOKEN_DELIMITERS_def MAX_ARGUMENTS_def SHELL_PROMPT_def
      handle_interrupt_signal_def sample_os_def Let_def)

section \<open>The prompt loop\<close>










end
